theory Spec2Isabelle
  imports Complex_Main
begin

section \<open>MultipleVirtualList: the composite scroll coordinator\<close>

text \<open>
  A shallow embedding of \<^verbatim>\<open>MultipleVirtualList/index.tsx\<close>. The component owns three
  pieces of mutable state (\<^verbatim>\<open>_height\<close>, \<^verbatim>\<open>scrollTop\<close> and the ref
  \<^verbatim>\<open>currentFetchIndex\<close>); every handler of the source becomes a function from the state
  before the call to the state after it. The props are held fixed over a run, so the
  closures that \<^verbatim>\<open>useCallback\<close> keeps from an earlier render (\<^verbatim>\<open>onScroll\<close>,
  \<^verbatim>\<open>scrollFetch\<close>) read the same props as the current one.

  Pixel quantities (heights, offsets, item sizes) are JavaScript numbers and are modelled as
  reals; indices, counts and times are integers. NaN is not modelled. The fields
  \<^verbatim>\<open>title\<close>, \<^verbatim>\<open>fetchUrl\<close> and \<^verbatim>\<open>fetchParams\<close> of a config item, the
  container's own style and the imperative \<^verbatim>\<open>scrollTo\<close> handle touch none of the state
  below and are left out.
\<close>

subsection \<open>Host values\<close>

text \<open>
  A host closure (a \<^verbatim>\<open>fetchMore\<close> hook, a render callback) is identified by a number;
  invoking a hook is recorded in the state's \<open>fetchLog\<close>. The value of an optional
  function-typed field is \<open>Undefined\<close>, a function, or some other value (one whose
  \<^verbatim>\<open>typeof\<close> is not \<^verbatim>\<open>'function'\<close>).
\<close>

type_synonym callback = nat

datatype jsvalue = Undefined | Function callback | Other

type_synonym renderer = nat

subsection \<open>Configuration and props\<close>

record MvlConfigItem =
  dataLength :: int
  itemSize :: "real option"
  fetchMore :: jsvalue
  renderPrefix :: "renderer option"
  renderSuffix :: "renderer option"
  renderItem :: "renderer option"
  renderGap :: "real option"

type_synonym MvlConfig = "MvlConfigItem list"

text \<open>The props as the component body sees them, after the destructuring defaults.\<close>

record MultipleVirtualListProps =
  renderConfig :: MvlConfig
  fetchOnScroll :: bool
  srcollInterval :: int
  fetchOnBottom :: bool
  boundary :: int

definition default_props :: "MvlConfig \<Rightarrow> MultipleVirtualListProps" where
  "default_props cfg =
     \<lparr>renderConfig = cfg, fetchOnScroll = True, srcollInterval = 200,
      fetchOnBottom = False, boundary = 0\<rparr>"

subsection \<open>Component state\<close>

text \<open>
  \<open>inner_height\<close> is the source's \<^verbatim>\<open>_height\<close>. \<open>lastInvoke\<close> is the private state of the
  throttle wrapper that \<^verbatim>\<open>onScroll\<close> closes over: \<^verbatim>\<open>onScroll\<close> is memoised with an empty
  dependency list, so every scroll event goes through the wrapper made by the first render.
  \<open>fetchLog\<close> lists the \<^verbatim>\<open>fetchMore\<close> closures invoked so far, oldest first.
\<close>

record mvl_state =
  inner_height :: real
  scrollTop :: real
  currentFetchIndex :: int
  lastInvoke :: "int option"
  fetchLog :: "callback list"

definition initial :: mvl_state where
  "initial =
     \<lparr>inner_height = 0, scrollTop = 0, currentFetchIndex = 0,
      lastInvoke = None, fetchLog = []\<rparr>"

type_synonym handler = "mvl_state \<Rightarrow> mvl_state"

text \<open>Reading \<^verbatim>\<open>xs[i]\<close> in JavaScript: \<^verbatim>\<open>undefined\<close> outside the array.\<close>

definition js_index :: "'a list \<Rightarrow> int \<Rightarrow> 'a option" where
  "js_index xs i = (if 0 \<le> i \<and> i < int (length xs) then Some (xs ! nat i) else None)"

text \<open>\<^verbatim>\<open>x || d\<close> on an optional number: \<^verbatim>\<open>undefined\<close> and \<^verbatim>\<open>0\<close> are falsy.\<close>

definition num_or :: "real option \<Rightarrow> real \<Rightarrow> real" where
  "num_or x d = (case x of None \<Rightarrow> d | Some v \<Rightarrow> if v = 0 then d else v)"

definition invoke :: "callback \<Rightarrow> handler" where
  "invoke cb s = s\<lparr>fetchLog := fetchLog s @ [cb]\<rparr>"

subsection \<open>The handlers of the component\<close>

definition setCurrentFetchIndex :: "MultipleVirtualListProps \<Rightarrow> int \<Rightarrow> handler" where
  "setCurrentFetchIndex p val s =
     s\<lparr>currentFetchIndex :=
         (if val > int (length (renderConfig p)) - 1
          then int (length (renderConfig p)) - 1 else val)\<rparr>"

definition scrollFetch :: "MultipleVirtualListProps \<Rightarrow> handler" where
  "scrollFetch p s =
     (if fetchOnScroll p then
        (case js_index (renderConfig p) (currentFetchIndex s) of
           None \<Rightarrow> s
         | Some item \<Rightarrow>
             (case fetchMore item of
                Function cb \<Rightarrow> invoke cb s
              | Undefined \<Rightarrow> s
              | Other \<Rightarrow> s))
      else s)"

text \<open>
  Modelled from the spec: \<^verbatim>\<open>throttle\<close> of \<^verbatim>\<open>./utils\<close> is not among the sources. The spec's
  contract (section 4.4) is taken with the leading edge: a call of the wrapper at time
  \<open>now\<close> invokes the wrapped function at once when the function was never invoked or its
  last invocation lies at least \<open>interval\<close> back, and is dropped otherwise.
\<close>

definition throttle :: "handler \<Rightarrow> int \<Rightarrow> int \<Rightarrow> handler" where
  "throttle fn interval now s =
     (case lastInvoke s of
        None \<Rightarrow> fn (s\<lparr>lastInvoke := Some now\<rparr>)
      | Some t \<Rightarrow>
          if interval \<le> now - t then fn (s\<lparr>lastInvoke := Some now\<rparr>) else s)"

definition throttledScrollFetch :: "MultipleVirtualListProps \<Rightarrow> int \<Rightarrow> handler" where
  "throttledScrollFetch p = throttle (scrollFetch p) (srcollInterval p)"

text \<open>\<open>onScroll p now offset\<close>: a scroll event delivered at time \<open>now\<close> whose target's
  \<^verbatim>\<open>scrollTop\<close> is \<open>offset\<close>.\<close>

definition onScroll :: "MultipleVirtualListProps \<Rightarrow> int \<Rightarrow> real \<Rightarrow> handler" where
  "onScroll p now offset s = throttledScrollFetch p now (s\<lparr>scrollTop := offset\<rparr>)"

definition onBottom :: "MultipleVirtualListProps \<Rightarrow> nat \<Rightarrow> handler" where
  "onBottom p index =
     (if fetchOnBottom p then
        (\<lambda>s. case js_index (renderConfig p) (int index) of
                None \<Rightarrow> s
              | Some item \<Rightarrow>
                  (case fetchMore item of
                     Function cb \<Rightarrow> invoke cb s
                   | Undefined \<Rightarrow> s
                   | Other \<Rightarrow> s))
      else (\<lambda>s. setCurrentFetchIndex p (int index + 1) s))"

text \<open>The mount effect: \<open>rect\<close> is the measured height of the container, \<open>None\<close> while
  \<^verbatim>\<open>divRef.current\<close> is null.\<close>

definition measure_height :: "real option \<Rightarrow> handler" where
  "measure_height rect s = s\<lparr>inner_height := num_or rect 0\<rparr>"

subsection \<open>Rendering\<close>

text \<open>The props handed to one \<^verbatim>\<open>MVirtualList\<close> child.\<close>

record MVirtualListProps =
  mvl_outerHeight :: real
  mvl_key :: nat
  mvl_scrollTop :: real
  mvl_dataLength :: int
  mvl_onBottom :: handler
  mvl_onLeave :: "handler option"
  mvl_itemSize :: real
  mvl_renderPrefix :: "renderer option"
  mvl_renderSuffix :: "renderer option"
  mvl_renderItem :: "renderer option"
  mvl_renderGap :: real
  mvl_boundary :: int

definition render_item ::
  "MultipleVirtualListProps \<Rightarrow> mvl_state \<Rightarrow> nat \<times> MvlConfigItem \<Rightarrow> MVirtualListProps" where
  "render_item p s = (\<lambda>(index, dataItem).
     \<lparr>mvl_outerHeight = inner_height s,
      mvl_key = index,
      mvl_scrollTop = scrollTop s,
      mvl_dataLength = dataLength dataItem,
      mvl_onBottom = onBottom p index,
      mvl_onLeave = (if fetchOnBottom p then None else Some (onBottom p index)),
      mvl_itemSize = num_or (itemSize dataItem) 100,
      mvl_renderPrefix = renderPrefix dataItem,
      mvl_renderSuffix = renderSuffix dataItem,
      mvl_renderItem = renderItem dataItem,
      mvl_renderGap = num_or (renderGap dataItem) 0,
      mvl_boundary = boundary p\<rparr>)"

text \<open>The children of the container: none while \<^verbatim>\<open>_height\<close> is falsy.\<close>

definition render :: "MultipleVirtualListProps \<Rightarrow> mvl_state \<Rightarrow> MVirtualListProps list" where
  "render p s =
     (if inner_height s \<noteq> 0 then map (render_item p s) (enumerate 0 (renderConfig p))
      else [])"

subsection \<open>Events\<close>

text \<open>
  What the host delivers to a mounted component: a scroll event (with the time of its
  delivery), the mount effect, and the edge signals of the child rendered for a segment.
  \<open>SetIndex\<close> is a direct call of \<^verbatim>\<open>setCurrentFetchIndex\<close>.
\<close>

datatype event =
    Scroll int real
  | Measure "real option"
  | Bottom nat
  | Leave nat
  | SetIndex int

text \<open>
  Modelled from the spec: \<^verbatim>\<open>MVirtualList\<close> of \<^verbatim>\<open>./components\<close> is not among the sources.
  Of its contract (spec sections 4.2 and 6) only this is used: when an edge of the segment is
  crossed, the child calls the \<^verbatim>\<open>onBottom\<close> (or \<^verbatim>\<open>onLeave\<close>) prop it was rendered with, if
  that prop is set; a segment that is not rendered signals nothing. The handlers themselves
  are those of the source.
\<close>

fun step :: "MultipleVirtualListProps \<Rightarrow> event \<Rightarrow> handler" where
  "step p (Scroll now offset) s = onScroll p now offset s"
| "step p (Measure rect) s = measure_height rect s"
| "step p (Bottom i) s =
     (case js_index (render p s) (int i) of
        None \<Rightarrow> s
      | Some child \<Rightarrow> mvl_onBottom child s)"
| "step p (Leave i) s =
     (case js_index (render p s) (int i) of
        None \<Rightarrow> s
      | Some child \<Rightarrow> (case mvl_onLeave child of None \<Rightarrow> s | Some h \<Rightarrow> h s))"
| "step p (SetIndex val) s = setCurrentFetchIndex p val s"

fun run :: "MultipleVirtualListProps \<Rightarrow> event list \<Rightarrow> handler" where
  "run p [] s = s"
| "run p (e # es) s = run p es (step p e s)"

text \<open>The states after each event of a run, in order.\<close>

fun trace :: "MultipleVirtualListProps \<Rightarrow> event list \<Rightarrow> mvl_state \<Rightarrow> mvl_state list" where
  "trace p [] s = []"
| "trace p (e # es) s = step p e s # trace p es (step p e s)"

text \<open>The value an event asks \<^verbatim>\<open>setCurrentFetchIndex\<close> to store, when \<^verbatim>\<open>fetchOnBottom\<close>
  is off: the argument of a direct call, \<open>index + 1\<close> for an edge signal of segment
  \<open>index\<close>.\<close>

fun requested :: "event \<Rightarrow> int option" where
  "requested (SetIndex val) = Some val"
| "requested (Bottom i) = Some (int i + 1)"
| "requested (Leave i) = Some (int i + 1)"
| "requested (Scroll now offset) = None"
| "requested (Measure rect) = None"

text \<open>A configuration used in the examples: three segments of 10, 5 and 20 items of size
  50, with fetch hooks 7, 8 and 9.\<close>

definition seg :: "int \<Rightarrow> jsvalue \<Rightarrow> MvlConfigItem" where
  "seg n f =
     \<lparr>dataLength = n, itemSize = Some 50, fetchMore = f, renderPrefix = None,
      renderSuffix = None, renderItem = None, renderGap = None\<rparr>"

definition cfg3 :: MvlConfig where
  "cfg3 = [seg 10 (Function 7), seg 5 (Function 8), seg 20 (Function 9)]"

text \<open>A second configuration: a segment with no size, gap or hook, one whose size and gap
  are \<open>0\<close> and whose hook is not a function, and one with a gap of 8 and hook 9.\<close>

definition cfg_mixed :: MvlConfig where
  "cfg_mixed =
     [(seg 10 Undefined)\<lparr>itemSize := None\<rparr>,
      (seg 5 Other)\<lparr>itemSize := Some 0, renderGap := Some 0\<rparr>,
      (seg 20 (Function 9))\<lparr>renderGap := Some 8\<rparr>]"

section \<open>Basic facts\<close>

lemma render_length:
  "inner_height s \<noteq> 0 \<Longrightarrow> length (render p s) = length (renderConfig p)"
  by (simp add: render_def)

lemma render_nth:
  "inner_height s \<noteq> 0 \<Longrightarrow> i < length (renderConfig p) \<Longrightarrow>
   render p s ! i = render_item p s (i, renderConfig p ! i)"
  by (simp add: render_def nth_enumerate_eq)

lemma render_unmeasured: "inner_height s = 0 \<Longrightarrow> render p s = []"
  by (simp add: render_def)

lemma js_index_render:
  "js_index (render p s) (int i) =
     (if inner_height s \<noteq> 0 \<and> i < length (renderConfig p)
      then Some (render_item p s (i, renderConfig p ! i)) else None)"
  by (cases "inner_height s = 0")
     (simp_all add: js_index_def render_length render_nth render_unmeasured)

lemma js_index_config:
  "i < length (renderConfig p) \<Longrightarrow>
   js_index (renderConfig p) (int i) = Some (renderConfig p ! i)"
  by (simp add: js_index_def)

lemma setCurrentFetchIndex_min:
  "setCurrentFetchIndex p val s =
     s\<lparr>currentFetchIndex := min val (int (length (renderConfig p)) - 1)\<rparr>"
  by (simp add: setCurrentFetchIndex_def min_def)

lemma step_edge_advance:
  assumes "\<not> fetchOnBottom p" and "inner_height s \<noteq> 0" and "i < length (renderConfig p)"
  shows "step p (Bottom i) s =
           s\<lparr>currentFetchIndex := min (int i + 1) (int (length (renderConfig p)) - 1)\<rparr>"
    and "step p (Leave i) s =
           s\<lparr>currentFetchIndex := min (int i + 1) (int (length (renderConfig p)) - 1)\<rparr>"
  using assms
  by (simp_all add: js_index_render render_item_def onBottom_def setCurrentFetchIndex_min)

lemma step_Bottom_fetch:
  assumes "fetchOnBottom p" and "inner_height s \<noteq> 0" and "i < length (renderConfig p)"
    and "fetchMore (renderConfig p ! i) = Function cb"
  shows "step p (Bottom i) s = s\<lparr>fetchLog := fetchLog s @ [cb]\<rparr>"
  using assms
  by (simp add: js_index_render render_item_def onBottom_def js_index_config invoke_def)

lemma run_Bottom_fetch:
  assumes "fetchOnBottom p" and "inner_height s \<noteq> 0" and "i < length (renderConfig p)"
    and "fetchMore (renderConfig p ! i) = Function cb"
  shows "run p (replicate k (Bottom i)) s = s\<lparr>fetchLog := fetchLog s @ replicate k cb\<rparr>"
  using assms(2)
proof (induction k arbitrary: s)
  case 0
  then show ?case by simp
next
  case (Suc k)
  have "run p (replicate (Suc k) (Bottom i)) s
          = run p (replicate k (Bottom i)) (s\<lparr>fetchLog := fetchLog s @ [cb]\<rparr>)"
    using step_Bottom_fetch [OF assms(1) Suc.prems assms(3,4)] by simp
  also have "\<dots> = s\<lparr>fetchLog := (fetchLog s @ [cb]) @ replicate k cb\<rparr>"
    using Suc.prems by (simp add: Suc.IH)
  finally show ?case by (simp add: replicate_app_Cons_same)
qed

lemma setCurrentFetchIndex_fields [simp]:
  "inner_height (setCurrentFetchIndex p v s) = inner_height s"
  "scrollTop (setCurrentFetchIndex p v s) = scrollTop s"
  "fetchLog (setCurrentFetchIndex p v s) = fetchLog s"
  "lastInvoke (setCurrentFetchIndex p v s) = lastInvoke s"
  by (simp_all add: setCurrentFetchIndex_def)

lemma scrollFetch_fields [simp]:
  "scrollTop (scrollFetch p s) = scrollTop s"
  "inner_height (scrollFetch p s) = inner_height s"
  "currentFetchIndex (scrollFetch p s) = currentFetchIndex s"
  "lastInvoke (scrollFetch p s) = lastInvoke s"
  by (simp_all add: scrollFetch_def invoke_def split: option.splits jsvalue.splits)

lemma scrollFetch_log:
  "fetchLog (scrollFetch p s) = fetchLog s \<or>
   (\<exists>item cb. js_index (renderConfig p) (currentFetchIndex s) = Some item \<and>
      fetchMore item = Function cb \<and> fetchLog (scrollFetch p s) = fetchLog s @ [cb])"
  by (simp add: scrollFetch_def invoke_def split: option.splits jsvalue.splits)

lemma onScroll_fields [simp]:
  "scrollTop (onScroll p now offset s) = offset"
  "inner_height (onScroll p now offset s) = inner_height s"
  "currentFetchIndex (onScroll p now offset s) = currentFetchIndex s"
  by (simp_all add: onScroll_def throttledScrollFetch_def throttle_def split: option.splits)

lemma onScroll_cases:
  "(\<exists>t. lastInvoke s = Some t \<and> now - t < srcollInterval p \<and>
        onScroll p now offset s = s\<lparr>scrollTop := offset\<rparr>) \<or>
   onScroll p now offset s = scrollFetch p (s\<lparr>scrollTop := offset, lastInvoke := Some now\<rparr>)"
  by (simp add: onScroll_def throttledScrollFetch_def throttle_def split: option.splits)

lemma onBottom_inner_height [simp]: "inner_height (onBottom p i s) = inner_height s"
  by (simp add: onBottom_def invoke_def split: option.splits jsvalue.splits)

lemma onBottom_index:
  "currentFetchIndex (onBottom p i s) =
     (if fetchOnBottom p then currentFetchIndex s
      else min (int i + 1) (int (length (renderConfig p)) - 1))"
  by (simp add: onBottom_def invoke_def setCurrentFetchIndex_min
        split: option.splits jsvalue.splits)

lemma step_inner_height:
  "(\<forall>rect. e \<noteq> Measure rect) \<Longrightarrow> inner_height (step p e s) = inner_height s"
  by (cases e) (simp_all add: js_index_render render_item_def)

lemma run_inner_height:
  "(\<forall>rect. Measure rect \<notin> set evs) \<Longrightarrow> inner_height (run p evs s) = inner_height s"
proof (induction evs arbitrary: s)
  case Nil
  then show ?case by simp
next
  case (Cons e evs)
  then have "\<forall>rect. e \<noteq> Measure rect" by auto
  then show ?case using Cons by (simp add: step_inner_height)
qed

lemma measured_300: "inner_height (measure_height (Some 300) s) = 300"
  by (simp add: measure_height_def num_or_def)

section \<open>The active segment index\<close>

text \<open>
  Claim C2, as amended. \<^verbatim>\<open>setCurrentFetchIndex\<close> stores the smaller of the requested value
  and \<open>segmentCount - 1\<close> and changes nothing else. A request above the last index is
  clamped to it; there is no clamp from below, so a negative request is stored as it is. For
  a non-negative request and at least one segment the stored value lies in
  \<open>[0, segmentCount - 1]\<close>. The function is total: no request raises.
\<close>

theorem setCurrentFetchIndex_clamps_above:
  "setCurrentFetchIndex p val s =
     s\<lparr>currentFetchIndex := min val (int (length (renderConfig p)) - 1)\<rparr> \<and>
   (0 \<le> val \<and> renderConfig p \<noteq> [] \<longrightarrow>
      0 \<le> currentFetchIndex (setCurrentFetchIndex p val s) \<and>
      currentFetchIndex (setCurrentFetchIndex p val s) \<le> int (length (renderConfig p)) - 1) \<and>
   (val < 0 \<longrightarrow> currentFetchIndex (setCurrentFetchIndex p val s) = val)"
  by (cases "renderConfig p") (auto simp: setCurrentFetchIndex_def min_def)

text \<open>Witness for C2: with three segments, a request of 7 is clamped to 2, a request of 1
  is stored, and a request of -5 is stored.\<close>

theorem setCurrentFetchIndex_clamps_above_witness:
  "currentFetchIndex (setCurrentFetchIndex (default_props cfg3) 7 initial) = 2 \<and>
   currentFetchIndex (setCurrentFetchIndex (default_props cfg3) 1 initial) = 1 \<and>
   currentFetchIndex (setCurrentFetchIndex (default_props cfg3) (- 5) initial) = - 5"
  using setCurrentFetchIndex_clamps_above [of "default_props cfg3" 7 initial]
        setCurrentFetchIndex_clamps_above [of "default_props cfg3" 1 initial]
        setCurrentFetchIndex_clamps_above [of "default_props cfg3" "- 5" initial]
  by (simp add: default_props_def cfg3_def)

text \<open>Counterexample to C2 as stated: with three segments the request -5 is committed
  as -5, which is not in \<open>[0, 2]\<close>.\<close>

theorem setCurrentFetchIndex_negative_request:
  "\<not> (0 \<le> currentFetchIndex (setCurrentFetchIndex (default_props cfg3) (- 5) initial) \<and>
      currentFetchIndex (setCurrentFetchIndex (default_props cfg3) (- 5) initial)
        \<le> int (length (renderConfig (default_props cfg3))) - 1)"
  by (simp add: setCurrentFetchIndex_def default_props_def cfg3_def initial_def)

section \<open>Edge signals\<close>

text \<open>
  Claim C4. With \<^verbatim>\<open>fetchOnBottom\<close> set, the bottom handler rendered for segment \<open>i\<close>
  invokes the \<^verbatim>\<open>fetchMore\<close> of segment \<open>i\<close>, once, and changes nothing else: whatever the
  state \<open>s'\<close> it runs in (so whatever the throttle's \<open>lastInvoke\<close>), the log gains exactly
  that hook. One bottom event adds one entry and \<open>k\<close> events in a row add \<open>k\<close>: nothing is
  coalesced. A segment without a function-valued hook leaves the state as it is.
\<close>

theorem onBottom_fetches_that_segment:
  assumes "fetchOnBottom p" and "inner_height s \<noteq> 0" and "i < length (renderConfig p)"
  shows "(fetchMore (renderConfig p ! i) = Function cb \<longrightarrow>
            mvl_onBottom (render p s ! i) s' = s'\<lparr>fetchLog := fetchLog s' @ [cb]\<rparr> \<and>
            step p (Bottom i) s = s\<lparr>fetchLog := fetchLog s @ [cb]\<rparr> \<and>
            run p (replicate k (Bottom i)) s = s\<lparr>fetchLog := fetchLog s @ replicate k cb\<rparr>) \<and>
         ((\<forall>f. fetchMore (renderConfig p ! i) \<noteq> Function f) \<longrightarrow>
            mvl_onBottom (render p s ! i) s' = s')"
proof (intro conjI impI)
  assume f: "fetchMore (renderConfig p ! i) = Function cb"
  show "mvl_onBottom (render p s ! i) s' = s'\<lparr>fetchLog := fetchLog s' @ [cb]\<rparr>"
    using assms f
    by (simp add: render_nth render_item_def onBottom_def js_index_config invoke_def)
  show "step p (Bottom i) s = s\<lparr>fetchLog := fetchLog s @ [cb]\<rparr>"
    by (rule step_Bottom_fetch [OF assms f])
  show "run p (replicate k (Bottom i)) s = s\<lparr>fetchLog := fetchLog s @ replicate k cb\<rparr>"
    by (rule run_Bottom_fetch [OF assms f])
next
  assume "\<forall>f. fetchMore (renderConfig p ! i) \<noteq> Function f"
  then show "mvl_onBottom (render p s ! i) s' = s'"
    using assms
    by (cases "fetchMore (renderConfig p ! i)")
       (simp_all add: render_nth render_item_def onBottom_def js_index_config)
qed

text \<open>Witness for C4: three segments with hooks 7, 8, 9 and \<^verbatim>\<open>fetchOnBottom\<close>; the
  bottom of segment 1 calls hook 8, three crossings call it three times, and the throttle
  state \<open>lastInvoke\<close> stays \<open>None\<close>.\<close>

theorem onBottom_fetches_that_segment_witness:
  "step ((default_props cfg3)\<lparr>fetchOnBottom := True\<rparr>) (Bottom 1)
      (measure_height (Some 300) initial)
     = \<lparr>inner_height = 300, scrollTop = 0, currentFetchIndex = 0,
        lastInvoke = None, fetchLog = [8]\<rparr> \<and>
   run ((default_props cfg3)\<lparr>fetchOnBottom := True\<rparr>) (replicate 3 (Bottom 1))
      (measure_height (Some 300) initial)
     = \<lparr>inner_height = 300, scrollTop = 0, currentFetchIndex = 0,
        lastInvoke = None, fetchLog = [8, 8, 8]\<rparr>"
proof -
  let ?p = "(default_props cfg3)\<lparr>fetchOnBottom := True\<rparr>"
  let ?s = "measure_height (Some 300) initial"
  have a: "fetchOnBottom ?p" by simp
  have b: "inner_height ?s \<noteq> 0" by (simp add: measured_300)
  have c: "1 < length (renderConfig ?p)" by (simp add: default_props_def cfg3_def)
  have d: "fetchMore (renderConfig ?p ! 1) = Function 8"
    by (simp add: default_props_def cfg3_def seg_def)
  have "step ?p (Bottom 1) ?s = ?s\<lparr>fetchLog := fetchLog ?s @ [8]\<rparr> \<and>
        run ?p (replicate 3 (Bottom 1)) ?s = ?s\<lparr>fetchLog := fetchLog ?s @ replicate 3 8\<rparr>"
    using onBottom_fetches_that_segment [OF a b c, of 8 ?s 3] d by blast
  moreover have "?s\<lparr>fetchLog := fetchLog ?s @ [8]\<rparr>
      = \<lparr>inner_height = 300, scrollTop = 0, currentFetchIndex = 0,
         lastInvoke = None, fetchLog = [8]\<rparr>"
    by (simp add: measure_height_def num_or_def initial_def)
  moreover have "?s\<lparr>fetchLog := fetchLog ?s @ replicate 3 8\<rparr>
      = \<lparr>inner_height = 300, scrollTop = 0, currentFetchIndex = 0,
         lastInvoke = None, fetchLog = [8, 8, 8]\<rparr>"
    by (simp add: measure_height_def num_or_def initial_def numeral_3_eq_3)
  ultimately show ?thesis by (simp only:)
qed

text \<open>
  Claim C5, as amended. With \<^verbatim>\<open>fetchOnBottom\<close> off, the bottom and the leave signal of
  segment \<open>i\<close> do the same thing: they set \<open>currentFetchIndex\<close> to \<open>i + 1\<close>, clamped at the
  last segment index, whatever it was before, and invoke no hook. That is an advance by
  exactly one when segment \<open>i\<close> is the active one.
\<close>

theorem edge_sets_index_to_next_segment:
  assumes "\<not> fetchOnBottom p" and "inner_height s \<noteq> 0" and "i < length (renderConfig p)"
  shows "step p (Bottom i) s =
           s\<lparr>currentFetchIndex := min (int i + 1) (int (length (renderConfig p)) - 1)\<rparr> \<and>
         step p (Leave i) s = step p (Bottom i) s \<and>
         mvl_onBottom (render p s ! i) s' =
           s'\<lparr>currentFetchIndex := min (int i + 1) (int (length (renderConfig p)) - 1)\<rparr> \<and>
         mvl_onLeave (render p s ! i) = Some (mvl_onBottom (render p s ! i)) \<and>
         fetchLog (step p (Bottom i) s) = fetchLog s \<and>
         (currentFetchIndex s = int i \<longrightarrow>
            currentFetchIndex (step p (Bottom i) s) =
              min (currentFetchIndex s + 1) (int (length (renderConfig p)) - 1))"
  using assms
  by (simp add: js_index_render render_nth render_item_def onBottom_def
        setCurrentFetchIndex_min)

text \<open>Witness for C5: after the mount effect, the bottom of segment 0 moves the index from
  0 to 1, and the leave signal of the last segment clamps it at 2.\<close>

theorem edge_sets_index_to_next_segment_witness:
  "step (default_props cfg3) (Bottom 0) (measure_height (Some 300) initial)
     = (measure_height (Some 300) initial)\<lparr>currentFetchIndex := 1\<rparr> \<and>
   step (default_props cfg3) (Leave 2) (measure_height (Some 300) initial)
     = (measure_height (Some 300) initial)\<lparr>currentFetchIndex := 2\<rparr>"
proof -
  let ?p = "default_props cfg3" and ?s = "measure_height (Some 300) initial"
  have a: "\<not> fetchOnBottom ?p" by (simp add: default_props_def)
  have b: "inner_height ?s \<noteq> 0" by (simp add: measured_300)
  have n: "length (renderConfig ?p) = 3" by (simp add: default_props_def cfg3_def)
  have c: "0 < length (renderConfig ?p)" "2 < length (renderConfig ?p)" by (simp_all add: n)
  show ?thesis
    using edge_sets_index_to_next_segment [OF a b c(1)]
          edge_sets_index_to_next_segment [OF a b c(2)]
    by (simp only: n) simp
qed

text \<open>Counterexample to C5 as stated: three segments, the bottoms of segments 0 and 1
  have fired (index 2); the user scrolls back and the bottom of segment 0 fires again. The
  index becomes 1, where an advance by one clamped at the last index would give 2.\<close>

theorem edge_is_not_increment:
  "currentFetchIndex
     (step (default_props cfg3) (Bottom 0)
        (run (default_props cfg3) [Measure (Some 300), Bottom 0, Bottom 1] initial))
   \<noteq> min (currentFetchIndex
             (run (default_props cfg3) [Measure (Some 300), Bottom 0, Bottom 1] initial) + 1)
          (int (length (renderConfig (default_props cfg3))) - 1)"
  by (simp del: step.simps
        add: step.simps(2) step_edge_advance measure_height_def num_or_def default_props_def
          cfg3_def)

text \<open>
  Claim C6. For every rendered segment the \<^verbatim>\<open>onLeave\<close> prop is set exactly when
  \<^verbatim>\<open>fetchOnBottom\<close> is off; it is then the same handler as the \<^verbatim>\<open>onBottom\<close> prop, the one
  that sets the active index to \<open>i + 1\<close>. With \<^verbatim>\<open>fetchOnBottom\<close> on it is undefined.
\<close>

theorem onLeave_wired_iff_not_fetchOnBottom:
  assumes "inner_height s \<noteq> 0" and "i < length (renderConfig p)"
  shows "(mvl_onLeave (render p s ! i) \<noteq> None) = (\<not> fetchOnBottom p) \<and>
         (\<not> fetchOnBottom p \<longrightarrow>
            mvl_onLeave (render p s ! i) = Some (mvl_onBottom (render p s ! i)) \<and>
            mvl_onBottom (render p s ! i) = setCurrentFetchIndex p (int i + 1)) \<and>
         (fetchOnBottom p \<longrightarrow> mvl_onLeave (render p s ! i) = None)"
  using assms by (simp add: render_nth render_item_def onBottom_def)

text \<open>Witness for C6: segment 1 of three, with the default props and with
  \<^verbatim>\<open>fetchOnBottom\<close> set.\<close>

theorem onLeave_wired_iff_not_fetchOnBottom_witness:
  "mvl_onLeave (render (default_props cfg3) (measure_height (Some 300) initial) ! 1)
     = Some (setCurrentFetchIndex (default_props cfg3) 2) \<and>
   mvl_onLeave (render ((default_props cfg3)\<lparr>fetchOnBottom := True\<rparr>)
                  (measure_height (Some 300) initial) ! 1) = None"
  using onLeave_wired_iff_not_fetchOnBottom
          [of "measure_height (Some 300) initial" 1 "default_props cfg3"]
        onLeave_wired_iff_not_fetchOnBottom
          [of "measure_height (Some 300) initial" 1
              "(default_props cfg3)\<lparr>fetchOnBottom := True\<rparr>"]
  by (simp add: measure_height_def num_or_def default_props_def cfg3_def)

section \<open>Rendering\<close>

text \<open>
  Claim C10. The child rendered for a segment gets \<^verbatim>\<open>itemSize\<close> 100 when the
  descriptor's \<^verbatim>\<open>itemSize\<close> is undefined or 0 and the configured value otherwise, and
  \<^verbatim>\<open>renderGap\<close> 0 when the descriptor's \<^verbatim>\<open>renderGap\<close> is undefined and the configured
  value otherwise (a configured 0 is passed as 0).
\<close>

theorem child_itemSize_renderGap_defaults:
  assumes "inner_height s \<noteq> 0" and "i < length (renderConfig p)"
  shows "mvl_itemSize (render p s ! i) =
           (case itemSize (renderConfig p ! i) of
              None \<Rightarrow> 100 | Some v \<Rightarrow> if v = 0 then 100 else v) \<and>
         mvl_renderGap (render p s ! i) =
           (case renderGap (renderConfig p ! i) of None \<Rightarrow> 0 | Some v \<Rightarrow> v)"
  using assms by (simp add: render_nth render_item_def num_or_def split: option.splits)

text \<open>Witness for C10: sizes undefined, 0 and 50 are passed as 100, 100 and 50; gaps
  undefined, 0 and 8 as 0, 0 and 8.\<close>

theorem child_itemSize_renderGap_defaults_witness:
  "mvl_itemSize (render (default_props cfg_mixed) (measure_height (Some 300) initial) ! 0) = 100 \<and>
   mvl_itemSize (render (default_props cfg_mixed) (measure_height (Some 300) initial) ! 1) = 100 \<and>
   mvl_itemSize (render (default_props cfg_mixed) (measure_height (Some 300) initial) ! 2) = 50 \<and>
   mvl_renderGap (render (default_props cfg_mixed) (measure_height (Some 300) initial) ! 0) = 0 \<and>
   mvl_renderGap (render (default_props cfg_mixed) (measure_height (Some 300) initial) ! 1) = 0 \<and>
   mvl_renderGap (render (default_props cfg_mixed) (measure_height (Some 300) initial) ! 2) = 8"
  using child_itemSize_renderGap_defaults
          [of "measure_height (Some 300) initial" 0 "default_props cfg_mixed"]
        child_itemSize_renderGap_defaults
          [of "measure_height (Some 300) initial" 1 "default_props cfg_mixed"]
        child_itemSize_renderGap_defaults
          [of "measure_height (Some 300) initial" 2 "default_props cfg_mixed"]
  by (simp add: measure_height_def num_or_def default_props_def cfg_mixed_def seg_def)

text \<open>
  Claim C8. While \<^verbatim>\<open>_height\<close> is 0 the container has no children: in any such state,
  and so after any events delivered from the initial state before the mount effect. Once
  the mount effect has committed a measured height \<open>H > 0\<close>, there is one child per
  configured segment, in order, each with \<^verbatim>\<open>outerHeight\<close> \<open>H\<close>, the segment's
  \<^verbatim>\<open>dataLength\<close> and the current \<^verbatim>\<open>scrollTop\<close>; after a scroll event to \<open>offset\<close> each
  child is rendered with \<open>offset\<close>. (What a child materialises from these props is the
  window engine's business.)
\<close>

theorem render_gated_on_measured_height:
  "(inner_height s = 0 \<longrightarrow> render p s = []) \<and>
   ((\<forall>rect. Measure rect \<notin> set evs) \<longrightarrow> render p (run p evs initial) = []) \<and>
   (0 < H \<longrightarrow>
      length (render p (measure_height (Some H) s)) = length (renderConfig p) \<and>
      (\<forall>i < length (renderConfig p).
         mvl_outerHeight (render p (measure_height (Some H) s) ! i) = H \<and>
         mvl_scrollTop (render p (measure_height (Some H) s) ! i) = scrollTop s \<and>
         mvl_dataLength (render p (measure_height (Some H) s) ! i)
           = dataLength (renderConfig p ! i) \<and>
         mvl_outerHeight (render p (onScroll p now offset (measure_height (Some H) s)) ! i)
           = H \<and>
         mvl_scrollTop (render p (onScroll p now offset (measure_height (Some H) s)) ! i)
           = offset))"
proof (intro conjI impI)
  assume "inner_height s = 0"
  then show "render p s = []" by (rule render_unmeasured)
next
  assume "\<forall>rect. Measure rect \<notin> set evs"
  then have "inner_height (run p evs initial) = 0"
    by (simp add: run_inner_height initial_def)
  then show "render p (run p evs initial) = []" by (rule render_unmeasured)
next
  assume H: "0 < H"
  then have m: "inner_height (measure_height (Some H) s) = H"
    by (simp add: measure_height_def num_or_def)
  with H show "length (render p (measure_height (Some H) s)) = length (renderConfig p)"
    by (simp add: render_length)
  from H m show "\<forall>i < length (renderConfig p).
         mvl_outerHeight (render p (measure_height (Some H) s) ! i) = H \<and>
         mvl_scrollTop (render p (measure_height (Some H) s) ! i) = scrollTop s \<and>
         mvl_dataLength (render p (measure_height (Some H) s) ! i)
           = dataLength (renderConfig p ! i) \<and>
         mvl_outerHeight (render p (onScroll p now offset (measure_height (Some H) s)) ! i)
           = H \<and>
         mvl_scrollTop (render p (onScroll p now offset (measure_height (Some H) s)) ! i)
           = offset"
    by (simp add: render_nth render_item_def measure_height_def)
qed

text \<open>Witness for C8: three segments; a scroll and an edge signal before the mount effect
  leave the container empty; after a measured height of 300 there are three children, and
  after a scroll to 700 segment 1 is rendered with \<^verbatim>\<open>scrollTop\<close> 700 and
  \<^verbatim>\<open>outerHeight\<close> 300.\<close>

theorem render_gated_on_measured_height_witness:
  "render (default_props cfg3) (run (default_props cfg3) [Scroll 0 700, Bottom 0] initial) = [] \<and>
   length (render (default_props cfg3) (measure_height (Some 300) initial)) = 3 \<and>
   mvl_scrollTop (render (default_props cfg3)
      (onScroll (default_props cfg3) 5 700 (measure_height (Some 300) initial)) ! 1) = 700 \<and>
   mvl_outerHeight (render (default_props cfg3)
      (onScroll (default_props cfg3) 5 700 (measure_height (Some 300) initial)) ! 1) = 300"
proof -
  let ?p = "default_props cfg3"
  have n: "length (renderConfig ?p) = 3" by (simp add: default_props_def cfg3_def)
  have e: "\<forall>rect. Measure rect \<notin> set [Scroll 0 700, Bottom 0]" by simp
  have h: "(0::real) < 300" by simp
  note t = render_gated_on_measured_height [of initial ?p "[Scroll 0 700, Bottom 0]" 300 5 700]
  from t e have "render ?p (run ?p [Scroll 0 700, Bottom 0] initial) = []" by blast
  moreover from t h n have "length (render ?p (measure_height (Some 300) initial)) = 3"
    by simp
  moreover from t h n have
    "mvl_scrollTop (render ?p (onScroll ?p 5 700 (measure_height (Some 300) initial)) ! 1) = 700"
    "mvl_outerHeight (render ?p (onScroll ?p 5 700 (measure_height (Some 300) initial)) ! 1) = 300"
    by simp_all
  ultimately show ?thesis by blast
qed

section \<open>Scrolling\<close>

text \<open>
  Claim C3. After any non-empty sequence of scroll events, delivered at any times, the
  stored \<^verbatim>\<open>scrollTop\<close> is the offset of the last event.
\<close>

theorem scrollTop_is_last_offset:
  "ts \<noteq> [] \<Longrightarrow>
   scrollTop (run p (map (\<lambda>(now, offset). Scroll now offset) ts) s) = snd (last ts)"
proof (induction ts arbitrary: s)
  case Nil
  then show ?case by simp
next
  case (Cons t ts)
  obtain now offset where t: "t = (now, offset)" by (cases t)
  show ?case
  proof (cases "ts = []")
    case True
    then show ?thesis by (simp add: t)
  next
    case False
    then show ?thesis using Cons.IH [of "step p (Scroll now offset) s"] by (simp add: t)
  qed
qed

text \<open>Witness for C3: offsets 700, 710 and 120 at times 0, 10 and 250 leave
  \<^verbatim>\<open>scrollTop\<close> at 120.\<close>

theorem scrollTop_is_last_offset_witness:
  "scrollTop (run (default_props cfg3) [Scroll 0 700, Scroll 10 710, Scroll 250 120] initial)
     = 120"
  using scrollTop_is_last_offset
          [of "[(0, 700), (10, 710), (250, 120)]" "default_props cfg3" initial]
  by simp

text \<open>
  Claim C7. When \<^verbatim>\<open>renderConfig[currentFetchIndex]\<close> is no segment, or is a segment whose
  \<^verbatim>\<open>fetchMore\<close> is undefined or not a function, \<^verbatim>\<open>scrollFetch\<close> returns the state as it
  is, and a scroll event invokes no hook: it only stores the offset and, when the throttle
  lets the call through, the time of the call.
\<close>

theorem scrollFetch_without_hook_is_noop:
  assumes "js_index (renderConfig p) (currentFetchIndex s) = None \<or>
           (\<exists>item. js_index (renderConfig p) (currentFetchIndex s) = Some item \<and>
              (fetchMore item = Undefined \<or> fetchMore item = Other))"
  shows "scrollFetch p s = s \<and>
         fetchLog (onScroll p now offset s) = fetchLog s \<and>
         (onScroll p now offset s = s\<lparr>scrollTop := offset\<rparr> \<or>
          onScroll p now offset s = s\<lparr>scrollTop := offset, lastInvoke := Some now\<rparr>)"
  using assms
  by (auto simp: scrollFetch_def onScroll_def throttledScrollFetch_def throttle_def
           split: option.splits)

text \<open>Witness for C7: an active segment with no hook, one whose hook is not a function,
  and an index that points at no segment (no segments at all).\<close>

theorem scrollFetch_without_hook_is_noop_witness:
  "scrollFetch (default_props cfg_mixed) initial = initial \<and>
   scrollFetch (default_props cfg_mixed) (initial\<lparr>currentFetchIndex := 1\<rparr>)
     = initial\<lparr>currentFetchIndex := 1\<rparr> \<and>
   scrollFetch (default_props []) initial = initial \<and>
   fetchLog (onScroll (default_props cfg_mixed) 0 700 initial) = []"
proof -
  let ?p = "default_props cfg_mixed"
  have a: "\<exists>item. js_index (renderConfig ?p) (currentFetchIndex initial) = Some item \<and>
             (fetchMore item = Undefined \<or> fetchMore item = Other)"
    by (simp add: js_index_def default_props_def cfg_mixed_def seg_def initial_def)
  have b: "\<exists>item. js_index (renderConfig ?p)
               (currentFetchIndex (initial\<lparr>currentFetchIndex := 1\<rparr>)) = Some item \<and>
             (fetchMore item = Undefined \<or> fetchMore item = Other)"
    by (simp add: js_index_def default_props_def cfg_mixed_def seg_def)
  have c: "js_index (renderConfig (default_props [])) (currentFetchIndex initial) = None"
    by (simp add: js_index_def default_props_def)
  have l: "fetchLog initial = []" by (simp add: initial_def)
  show ?thesis
    using scrollFetch_without_hook_is_noop [of ?p initial 0 700, OF disjI2, OF a]
          scrollFetch_without_hook_is_noop
            [of ?p "initial\<lparr>currentFetchIndex := 1\<rparr>" 0 700, OF disjI2, OF b]
          scrollFetch_without_hook_is_noop [of "default_props []" initial 0 700, OF disjI1, OF c]
    by (simp add: l)
qed

subsection \<open>The throttled fetch\<close>

lemma scrolls_blocked:
  assumes "lastInvoke s = Some t" and "\<forall>e\<in>set ts. fst e - t < srcollInterval p"
  shows "fetchLog (run p (map (\<lambda>(now, offset). Scroll now offset) ts) s) = fetchLog s"
  using assms
proof (induction ts arbitrary: s)
  case Nil
  then show ?case by simp
next
  case (Cons e ts)
  obtain now offset where e: "e = (now, offset)" by (cases e)
  from Cons.prems have "now - t < srcollInterval p" by (simp add: e)
  with Cons.prems(1) have o: "onScroll p now offset s = s\<lparr>scrollTop := offset\<rparr>"
    by (simp add: onScroll_def throttledScrollFetch_def throttle_def)
  have "fetchLog (run p (map (\<lambda>(now, offset). Scroll now offset) ts) (s\<lparr>scrollTop := offset\<rparr>))
          = fetchLog (s\<lparr>scrollTop := offset\<rparr>)"
    using Cons.prems by (intro Cons.IH) simp_all
  then show ?case by (simp add: e o)
qed

text \<open>A burst of scroll events inside a window shorter than the interval invokes at most
  one hook, that of the active segment.\<close>

lemma scroll_burst:
  assumes "\<forall>e\<in>set ts. T \<le> fst e \<and> fst e \<le> T + w" and "w < srcollInterval p"
  shows "fetchLog (run p (map (\<lambda>(now, offset). Scroll now offset) ts) s) = fetchLog s \<or>
         (\<exists>item cb. js_index (renderConfig p) (currentFetchIndex s) = Some item \<and>
            fetchMore item = Function cb \<and>
            fetchLog (run p (map (\<lambda>(now, offset). Scroll now offset) ts) s) = fetchLog s @ [cb])"
  using assms(1)
proof (induction ts arbitrary: s)
  case Nil
  then show ?case by simp
next
  case (Cons e ts)
  obtain now offset where e: "e = (now, offset)" by (cases e)
  let ?rest = "map (\<lambda>(now, offset). Scroll now offset) ts"
  from onScroll_cases [of s now p offset] show ?case
  proof (elim disjE exE conjE)
    fix t
    assume o: "onScroll p now offset s = s\<lparr>scrollTop := offset\<rparr>"
    let ?s = "s\<lparr>scrollTop := offset\<rparr>"
    have "fetchLog (run p ?rest ?s) = fetchLog ?s \<or>
         (\<exists>item cb. js_index (renderConfig p) (currentFetchIndex ?s) = Some item \<and>
            fetchMore item = Function cb \<and>
            fetchLog (run p ?rest ?s) = fetchLog ?s @ [cb])"
      using Cons.prems by (intro Cons.IH) simp
    then show ?thesis by (simp add: e o)
  next
    let ?s = "s\<lparr>scrollTop := offset, lastInvoke := Some now\<rparr>"
    assume o: "onScroll p now offset s = scrollFetch p ?s"
    have "T \<le> now" using Cons.prems by (simp add: e)
    then have "\<forall>e\<in>set ts. fst e - now < srcollInterval p"
      using Cons.prems assms(2) by auto
    then have "fetchLog (run p ?rest (scrollFetch p ?s)) = fetchLog (scrollFetch p ?s)"
      by (intro scrolls_blocked [where t = now]) simp_all
    with scrollFetch_log [of p ?s] show ?thesis by (simp add: e o)
  qed
qed

text \<open>
  Claim C9. With \<^verbatim>\<open>fetchOnScroll\<close> set and an interval of 200, 50 scroll events whose
  times all lie in a window \<open>[T, T + 50]\<close> add at most one entry to the log of invoked
  hooks, whatever the throttle's state before the burst; if one is added, it is the hook of
  the active segment. The throttle is the leading-edge model of the spec's contract.
\<close>

theorem scroll_burst_fetches_at_most_once:
  assumes "fetchOnScroll p" and "srcollInterval p = 200" and "length ts = 50"
    and "\<forall>e\<in>set ts. T \<le> fst e \<and> fst e \<le> T + 50"
  shows "length (fetchLog (run p (map (\<lambda>(now, offset). Scroll now offset) ts) s))
           \<le> length (fetchLog s) + 1 \<and>
         (fetchLog (run p (map (\<lambda>(now, offset). Scroll now offset) ts) s) = fetchLog s \<or>
          (\<exists>item cb. js_index (renderConfig p) (currentFetchIndex s) = Some item \<and>
             fetchMore item = Function cb \<and>
             fetchLog (run p (map (\<lambda>(now, offset). Scroll now offset) ts) s)
               = fetchLog s @ [cb]))"
proof -
  have "(50::int) < srcollInterval p" using assms(2) by simp
  from scroll_burst [OF assms(4) this, of s] show ?thesis by auto
qed

text \<open>Witness for C9: the default props over three segments, and 50 scroll events at the
  times 0, 1, ..., 49 after the mount effect.\<close>

theorem scroll_burst_fetches_at_most_once_witness:
  "length (fetchLog (run (default_props cfg3)
      (map (\<lambda>(now, offset). Scroll now offset) (map (\<lambda>k. (int k, 10 * real k)) [0..<50]))
      (measure_height (Some 300) initial))) \<le> 1"
proof -
  let ?ts = "map (\<lambda>k. (int k, 10 * real k)) [0..<50]"
  let ?p = "default_props cfg3"
  have a: "fetchOnScroll ?p" "srcollInterval ?p = 200" by (simp_all add: default_props_def)
  have b: "length ?ts = 50" by simp
  have c: "\<forall>e\<in>set ?ts. 0 \<le> fst e \<and> fst e \<le> 0 + 50" by auto
  have "fetchLog (measure_height (Some 300) initial) = []"
    by (simp add: measure_height_def initial_def)
  with scroll_burst_fetches_at_most_once [OF a b c, of "measure_height (Some 300) initial"]
  show ?thesis by simp
qed

section \<open>The active segment index over a run\<close>

lemma step_index_bound:
  "currentFetchIndex s \<le> int (length (renderConfig p)) - 1 \<Longrightarrow>
   currentFetchIndex (step p e s) \<le> int (length (renderConfig p)) - 1"
  by (cases e)
     (auto simp: js_index_render render_item_def onBottom_index setCurrentFetchIndex_min
        measure_height_def)

lemma trace_index_bound:
  "currentFetchIndex s \<le> int (length (renderConfig p)) - 1 \<Longrightarrow>
   \<forall>s'\<in>set (trace p evs s). currentFetchIndex s' \<le> int (length (renderConfig p)) - 1"
proof (induction evs arbitrary: s)
  case Nil
  then show ?case by simp
next
  case (Cons e evs)
  from Cons.prems have "currentFetchIndex (step p e s) \<le> int (length (renderConfig p)) - 1"
    by (rule step_index_bound)
  with Cons.IH [OF this] show ?case by simp
qed

lemma step_requested:
  assumes "\<not> fetchOnBottom p" and "inner_height s \<noteq> 0" and "requested e = Some r"
    and "\<forall>i. e = Bottom i \<or> e = Leave i \<longrightarrow> i < length (renderConfig p)"
  shows "step p e s = s\<lparr>currentFetchIndex := min r (int (length (renderConfig p)) - 1)\<rparr>"
  using assms
  by (cases e)
     (auto simp: step_edge_advance setCurrentFetchIndex_min simp del: step.simps(3,4))

lemma trace_requested:
  assumes "\<not> fetchOnBottom p"
  shows "inner_height s \<noteq> 0 \<Longrightarrow> map requested evs = map Some rs \<Longrightarrow>
         \<forall>i. Bottom i \<in> set evs \<or> Leave i \<in> set evs \<longrightarrow> i < length (renderConfig p) \<Longrightarrow>
         map currentFetchIndex (trace p evs s) =
           map (\<lambda>r. min r (int (length (renderConfig p)) - 1)) rs"
proof (induction evs arbitrary: s rs)
  case Nil
  then show ?case by simp
next
  case (Cons e evs)
  from Cons.prems(2) obtain r rs' where rs: "rs = r # rs'" and r: "requested e = Some r"
    and rest: "map requested evs = map Some rs'"
    by (cases rs) auto
  have ok: "\<forall>i. e = Bottom i \<or> e = Leave i \<longrightarrow> i < length (renderConfig p)"
    using Cons.prems(3) by auto
  let ?s = "s\<lparr>currentFetchIndex := min r (int (length (renderConfig p)) - 1)\<rparr>"
  have st: "step p e s = ?s"
    by (rule step_requested [OF assms Cons.prems(1) r ok])
  have "map currentFetchIndex (trace p evs ?s) =
          map (\<lambda>r. min r (int (length (renderConfig p)) - 1)) rs'"
    using Cons.prems(1,3) rest by (intro Cons.IH) simp_all
  then show ?case by (simp add: st rs)
qed

lemma sorted_clamped:
  fixes c :: int
  assumes "sorted rs" and "\<forall>r\<in>set rs. c0 \<le> min r c"
  shows "sorted (c0 # map (\<lambda>r. min r c) rs)"
proof -
  have "sorted (map (\<lambda>r. min r c) rs)"
    using assms(1) by (induction rs) (auto simp: min_def)
  with assms(2) show ?thesis by auto
qed

text \<open>
  Claim C1, as amended. Over any sequence of events the stored index, once at most
  \<open>segmentCount - 1\<close>, stays so. With \<^verbatim>\<open>fetchOnBottom\<close> off and the segments rendered, a
  sequence of \<^verbatim>\<open>setCurrentFetchIndex\<close> calls and edge signals of existing segments stores,
  one after the other, exactly its requested values clamped at \<open>segmentCount - 1\<close> (the
  request of an edge signal of segment \<open>i\<close> is \<open>i + 1\<close>); so every stored value is at
  most \<open>segmentCount - 1\<close>, and the index is non-decreasing over the sequence when the
  requests are non-decreasing and none is below the index the sequence starts from. There
  is no ratchet: nothing compares a request with the stored value.
\<close>

theorem index_follows_clamped_requests:
  "(currentFetchIndex s \<le> int (length (renderConfig p)) - 1 \<longrightarrow>
      (\<forall>s'\<in>set (trace p evs s). currentFetchIndex s' \<le> int (length (renderConfig p)) - 1)) \<and>
   (\<not> fetchOnBottom p \<and> inner_height s \<noteq> 0 \<and> map requested evs = map Some rs \<and>
    (\<forall>i. Bottom i \<in> set evs \<or> Leave i \<in> set evs \<longrightarrow> i < length (renderConfig p)) \<longrightarrow>
      map currentFetchIndex (trace p evs s) =
        map (\<lambda>r. min r (int (length (renderConfig p)) - 1)) rs \<and>
      (sorted rs \<and>
       (\<forall>r\<in>set rs. currentFetchIndex s \<le> min r (int (length (renderConfig p)) - 1)) \<longrightarrow>
         sorted (map currentFetchIndex (s # trace p evs s))))"
proof (intro conjI impI)
  assume "currentFetchIndex s \<le> int (length (renderConfig p)) - 1"
  then show "\<forall>s'\<in>set (trace p evs s). currentFetchIndex s' \<le> int (length (renderConfig p)) - 1"
    by (rule trace_index_bound)
next
  assume a: "\<not> fetchOnBottom p \<and> inner_height s \<noteq> 0 \<and> map requested evs = map Some rs \<and>
    (\<forall>i. Bottom i \<in> set evs \<or> Leave i \<in> set evs \<longrightarrow> i < length (renderConfig p))"
  then show t: "map currentFetchIndex (trace p evs s) =
        map (\<lambda>r. min r (int (length (renderConfig p)) - 1)) rs"
    by (intro trace_requested) simp_all
  assume "sorted rs \<and>
    (\<forall>r\<in>set rs. currentFetchIndex s \<le> min r (int (length (renderConfig p)) - 1))"
  then have "sorted (currentFetchIndex s #
               map (\<lambda>r. min r (int (length (renderConfig p)) - 1)) rs)"
    by (intro sorted_clamped) simp_all
  then show "sorted (map currentFetchIndex (s # trace p evs s))"
    by (simp only: list.map t)
qed

text \<open>Witness for C1: three segments, after the mount effect; the bottom and leave
  signals of segment 0, the bottom of segment 1 and a direct request of 9 store 1, 1, 2
  and 2.\<close>

theorem index_follows_clamped_requests_witness:
  "map currentFetchIndex
     (trace (default_props cfg3) [Bottom 0, Leave 0, Bottom 1, SetIndex 9]
        (measure_height (Some 300) initial)) = [1, 1, 2, 2] \<and>
   sorted (map currentFetchIndex
     (measure_height (Some 300) initial #
      trace (default_props cfg3) [Bottom 0, Leave 0, Bottom 1, SetIndex 9]
        (measure_height (Some 300) initial)))"
proof -
  let ?p = "default_props cfg3" and ?s = "measure_height (Some 300) initial"
  let ?evs = "[Bottom 0, Leave 0, Bottom 1, SetIndex 9]"
  have n: "int (length (renderConfig ?p)) - 1 = 2" by (simp add: default_props_def cfg3_def)
  have a: "\<not> fetchOnBottom ?p \<and> inner_height ?s \<noteq> 0 \<and>
           map requested ?evs = map Some [1, 1, 2, 9] \<and>
           (\<forall>i. Bottom i \<in> set ?evs \<or> Leave i \<in> set ?evs \<longrightarrow> i < length (renderConfig ?p))"
    by (auto simp: default_props_def cfg3_def measured_300)
  have b: "sorted [1, 1, 2, 9::int] \<and>
           (\<forall>r\<in>set [1, 1, 2, 9::int].
              currentFetchIndex ?s \<le> min r (int (length (renderConfig ?p)) - 1))"
    by (simp add: n measure_height_def initial_def)
  from index_follows_clamped_requests [of ?s ?p ?evs "[1, 1, 2, 9]"] a b
  have "map currentFetchIndex (trace ?p ?evs ?s) =
          map (\<lambda>r. min r (int (length (renderConfig ?p)) - 1)) [1, 1, 2, 9]"
    and "sorted (map currentFetchIndex (?s # trace ?p ?evs ?s))"
    by blast+
  then show ?thesis by (simp only: n) simp
qed

text \<open>Counterexample to C1 as stated: three segments; after the mount effect the bottoms
  of segments 0 and 1 fire, then the bottom of segment 0 fires again (the user has scrolled
  back). The stored index goes 0, 1, 2, 1: it decreases.\<close>

theorem index_decreases_on_earlier_edge:
  "\<not> sorted (map currentFetchIndex
       (trace (default_props cfg3) [Measure (Some 300), Bottom 0, Bottom 1, Bottom 0] initial))"
  by (simp del: step.simps
        add: step.simps(2) step_edge_advance measure_height_def num_or_def default_props_def
          cfg3_def initial_def)

end
